theory Spec2Isabelle
  imports Main "HOL-Library.Sublist"
begin

section \<open>The windowing engine of lttnganalyses/core/analysis.py\<close>

text \<open>
  A shallow embedding of the classes \<^verbatim>\<open>TimeRange\<close>, \<^verbatim>\<open>AnalysisConfig\<close> and
  \<^verbatim>\<open>Analysis\<close>. Python's unbounded integers are \<open>int\<close>, \<^verbatim>\<open>None\<close> is
  \<open>None\<close> of an option type, a dict is a map, and every method that mutates
  \<^verbatim>\<open>self\<close> takes the engine and returns the updated one. A raise of the source
  is the left injection of a sum.
\<close>

subsection \<open>Values, events and errors\<close>

datatype error = IndexError | TypeError | NotImplementedError

text \<open>Field values of a trace event; the engine only compares them and applies \<^verbatim>\<open>str\<close>.\<close>

datatype pyval = PInt int | PStr string

text \<open>
  An event: \<^verbatim>\<open>ev.name\<close>, \<^verbatim>\<open>ev.timestamp\<close>, and \<^verbatim>\<open>ev[field]\<close>, which raises
  \<^verbatim>\<open>KeyError\<close> exactly where the map is \<open>None\<close>.
\<close>

record event =
  name :: string
  timestamp :: int
  ev_fields :: "string \<rightharpoonup> pyval"

text \<open>Python's \<^verbatim>\<open>str\<close> on the two kinds of value.\<close>

function str_nat :: "nat \<Rightarrow> string" where
  "str_nat n =
     (if n < 10 then [char_of (48 + n)]
      else str_nat (n div 10) @ [char_of (48 + n mod 10)])"
  by pat_completeness auto
termination
  by (relation "measure (\<lambda>n. n)") auto

declare str_nat.simps [simp del]

definition py_str :: "pyval \<Rightarrow> string" where
  "py_str v =
     (case v of
        PStr s \<Rightarrow> s
      | PInt i \<Rightarrow> (if i < 0 then CHR ''-'' # str_nat (nat (- i)) else str_nat (nat i)))"

subsection \<open>TimeRange\<close>

text \<open>
  The fields \<^verbatim>\<open>begin\<close> and \<^verbatim>\<open>end\<close> are reserved words here, hence the prefix.
\<close>

record time_range =
  range_begin :: "int option"
  range_end :: "int option"

text \<open>
  \<^verbatim>\<open>a < b\<close> on two bounds in Python 3: defined on two integers, a \<^verbatim>\<open>TypeError\<close> as
  soon as one side is \<^verbatim>\<open>None\<close>.
\<close>

definition py_lt :: "int option \<Rightarrow> int option \<Rightarrow> error + bool" where
  "py_lt a b =
     (case a of
        None \<Rightarrow> Inl TypeError
      | Some x \<Rightarrow> (case b of None \<Rightarrow> Inl TypeError | Some y \<Rightarrow> Inr (x < y)))"

text \<open>\<^verbatim>\<open>__eq__\<close>: equality of the pairs \<^verbatim>\<open>(begin, end)\<close>.\<close>

definition time_range_eq :: "time_range \<Rightarrow> time_range \<Rightarrow> bool" where
  "time_range_eq a b = (range_begin a = range_begin b \<and> range_end a = range_end b)"

text \<open>
  \<^verbatim>\<open>__lt__\<close>: Python compares the two pairs by looking for the first position whose
  components differ and applying \<^verbatim>\<open><\<close> to the two components there; equal pairs
  are not less.
\<close>

definition time_range_lt :: "time_range \<Rightarrow> time_range \<Rightarrow> error + bool" where
  "time_range_lt a b =
     (if range_begin a \<noteq> range_begin b then py_lt (range_begin a) (range_begin b)
      else if range_end a \<noteq> range_end b then py_lt (range_end a) (range_end b)
      else Inr False)"

text \<open>
  The three operators \<^verbatim>\<open>functools.total_ordering\<close> derives from \<^verbatim>\<open>__lt__\<close> and
  \<^verbatim>\<open>__eq__\<close>: each calls \<^verbatim>\<open>__lt__\<close> first, so each raises where it does.
\<close>

definition time_range_le :: "time_range \<Rightarrow> time_range \<Rightarrow> error + bool" where
  "time_range_le a b =
     (case time_range_lt a b of Inl e \<Rightarrow> Inl e | Inr r \<Rightarrow> Inr (r \<or> time_range_eq a b))"

definition time_range_gt :: "time_range \<Rightarrow> time_range \<Rightarrow> error + bool" where
  "time_range_gt a b =
     (case time_range_lt a b of
        Inl e \<Rightarrow> Inl e
      | Inr r \<Rightarrow> Inr (\<not> r \<and> \<not> time_range_eq a b))"

definition time_range_ge :: "time_range \<Rightarrow> time_range \<Rightarrow> error + bool" where
  "time_range_ge a b =
     (case time_range_lt a b of Inl e \<Rightarrow> Inl e | Inr r \<Rightarrow> Inr (\<not> r))"

text \<open>A range both of whose bounds are integers.\<close>

definition numeric :: "time_range \<Rightarrow> bool" where
  "numeric r = (range_begin r \<noteq> None \<and> range_end r \<noteq> None)"

subsection \<open>AnalysisConfig\<close>

text \<open>
  The fields the engine's period logic reads. \<^verbatim>\<open>accumulate\<close> is only tested for
  truth, so its default \<^verbatim>\<open>None\<close> is \<open>False\<close>; \<^verbatim>\<open>current_ts\<close> is an index the
  engine sets to 0 and increments. The duration bounds and the process, thread and
  CPU lists are read by the filter predicates only and are left out.
\<close>

record analysis_config =
  refresh_period :: "int option"
  period_begin_ev_name :: "string option"
  period_end_ev_name :: "string option"
  period_begin_key_fields :: "string list option"
  period_end_key_fields :: "string list option"
  period_key_value :: "string list option"
  range_ts :: "time_range list option"
  current_ts :: "nat option"
  accumulate :: bool

definition AnalysisConfig :: analysis_config where
  "AnalysisConfig =
     \<lparr>refresh_period = None, period_begin_ev_name = None, period_end_ev_name = None,
      period_begin_key_fields = None, period_end_key_fields = None,
      period_key_value = None, range_ts = None, current_ts = None, accumulate = False\<rparr>"

subsection \<open>Truth values of Python objects\<close>

text \<open>\<^verbatim>\<open>None\<close> and 0 are false.\<close>

definition truthy_ts :: "int option \<Rightarrow> bool" where
  "truthy_ts t = (case t of None \<Rightarrow> False | Some n \<Rightarrow> n \<noteq> 0)"

text \<open>\<^verbatim>\<open>None\<close> and the empty sequence (tuple, list or string) are false.\<close>

definition truthy_seq :: "'a list option \<Rightarrow> bool" where
  "truthy_seq k = (case k of None \<Rightarrow> False | Some xs \<Rightarrow> xs \<noteq> [])"

subsection \<open>The engine state and its observable effects\<close>

text \<open>
  Callbacks are opaque callables; a callback is identified by a number, and calling
  it is recorded in the \<open>effects\<close> trace, in order. \<open>Reset\<close> is a call of the
  subclass's \<^verbatim>\<open>reset\<close>, \<open>EndPeriodCb\<close> a call of the hook \<^verbatim>\<open>_end_period_cb\<close>
  (one per \<^verbatim>\<open>_end_period\<close>), \<open>Notify cb n b e\<close> the call
  \<^verbatim>\<open>cb(begin_ns=b, end_ns=e)\<close> of a subscriber of notification \<open>n\<close>, and
  \<open>Call cb ev\<close> the call of a per-event-name callback.
\<close>

type_synonym callback = nat

datatype effect =
    Reset
  | EndPeriodCb
  | Notify callback string "int option" "int option"
  | Call callback event

text \<open>
  \<open>reset_overridden\<close> says whether the concrete analysis overrides \<^verbatim>\<open>reset\<close>; the
  base class's method raises \<^verbatim>\<open>NotImplementedError\<close>. The field \<^verbatim>\<open>_state\<close> is
  never read by the engine and is left out.
\<close>

record analysis =
  conf :: analysis_config
  period_key :: "pyval list option"
  period_start_ts :: "int option"
  last_event_ts :: "int option"
  notification_cbs :: "string \<rightharpoonup> callback list"
  cbs :: "string \<rightharpoonup> callback"
  started :: bool
  ended :: bool
  reset_overridden :: bool
  effects :: "effect list"

definition TICK_CB :: string where
  "TICK_CB = ''tick''"

text \<open>\<^verbatim>\<open>__init__\<close>.\<close>

definition new_analysis :: "analysis_config \<Rightarrow> bool \<Rightarrow> analysis" where
  "new_analysis c ov =
     \<lparr>conf = c, period_key = None, period_start_ts = None, last_event_ts = None,
      notification_cbs = Map.empty, cbs = Map.empty, started = False, ended = False,
      reset_overridden = ov, effects = []\<rparr>"

text \<open>
  \<^verbatim>\<open>reset\<close>: the override of a concrete analysis is recorded in the trace; the
  method of the base class raises.
\<close>

definition reset :: "analysis \<Rightarrow> error + analysis" where
  "reset s =
     (if reset_overridden s then Inr (s\<lparr>effects := effects s @ [Reset]\<rparr>)
      else Inl NotImplementedError)"

text \<open>\<^verbatim>\<open>register_notification_cbs\<close>, the dict given as its list of items.\<close>

fun register_notification_cbs :: "analysis \<Rightarrow> (string \<times> callback) list \<Rightarrow> analysis" where
  "register_notification_cbs s [] = s"
| "register_notification_cbs s ((n, cb) # rest) =
     register_notification_cbs
       (s\<lparr>notification_cbs :=
            (notification_cbs s)
              (n \<mapsto> (case notification_cbs s n of None \<Rightarrow> [] | Some l \<Rightarrow> l) @ [cb])\<rparr>)
       rest"

definition register_cbs :: "analysis \<Rightarrow> (string \<rightharpoonup> callback) \<Rightarrow> analysis" where
  "register_cbs s m = s\<lparr>cbs := m\<rparr>"

definition send_notification_cb ::
  "analysis \<Rightarrow> string \<Rightarrow> int option \<Rightarrow> int option \<Rightarrow> analysis" where
  "send_notification_cb s n b e =
     (case notification_cbs s n of
        None \<Rightarrow> s
      | Some l \<Rightarrow> s\<lparr>effects := effects s @ map (\<lambda>cb. Notify cb n b e) l\<rparr>)"

definition end_period_cb :: "analysis \<Rightarrow> analysis" where
  "end_period_cb s = s\<lparr>effects := effects s @ [EndPeriodCb]\<rparr>"

definition end_period :: "analysis \<Rightarrow> analysis" where
  "end_period s =
     send_notification_cb (end_period_cb s) TICK_CB (period_start_ts s) (last_event_ts s)"

definition begin_period :: "analysis \<Rightarrow> pyval list \<Rightarrow> int \<Rightarrow> error + analysis" where
  "begin_period s k ts = reset (s\<lparr>period_key := Some k, period_start_ts := Some ts\<rparr>)"

subsection \<open>Per-event-name dispatch\<close>

text \<open>\<^verbatim>\<open>self._cbs[key](ev)\<close> for a registered key.\<close>

definition call_cb :: "analysis \<Rightarrow> string \<Rightarrow> event \<Rightarrow> analysis" where
  "call_cb s key ev =
     (case cbs s key of
        None \<Rightarrow> s
      | Some cb \<Rightarrow> s\<lparr>effects := effects s @ [Call cb ev]\<rparr>)"

definition process_event_cb :: "analysis \<Rightarrow> event \<Rightarrow> analysis" where
  "process_event_cb s ev =
     (if cbs s (name ev) \<noteq> None then call_cb s (name ev) ev
      else if cbs s ''syscall_entry'' \<noteq> None \<and>
              (prefix ''sys_'' (name ev) \<or> prefix ''syscall_entry_'' (name ev))
        then call_cb s ''syscall_entry'' ev
      else if cbs s ''syscall_exit'' \<noteq> None \<and>
              (prefix ''exit_syscall'' (name ev) \<or> prefix ''syscall_exit_'' (name ev))
        then call_cb s ''syscall_exit'' ev
      else s)"

subsection \<open>Range gating\<close>

text \<open>
  The range list; \<^verbatim>\<open>None\<close> and the empty list both satisfy \<^verbatim>\<open>not range_ts\<close>.
\<close>

definition ranges :: "analysis_config \<Rightarrow> time_range list" where
  "ranges c = (case range_ts c of None \<Rightarrow> [] | Some rs \<Rightarrow> rs)"

text \<open>
  The \<^verbatim>\<open>while\<close> loop of \<^verbatim>\<open>_check_analysis\<close>: \<open>i\<close> is \<^verbatim>\<open>current_ts\<close> and \<open>r\<close> the
  local \<^verbatim>\<open>range_ts\<close>. The comparison with the end bound of a range reached by
  the loop is not guarded, so a range without an end bound raises there.
\<close>

function (sequential) advance_range ::
  "time_range list \<Rightarrow> int \<Rightarrow> nat \<Rightarrow> time_range option \<Rightarrow> error + nat \<times> time_range option" where
  "advance_range rs ts i None = Inr (i, None)"
| "advance_range rs ts i (Some rg) =
     (case range_end rg of
        None \<Rightarrow> Inl TypeError
      | Some e \<Rightarrow>
          if ts > e then
            (if length rs > i + 1 then advance_range rs ts (i + 1) (Some (rs ! (i + 1)))
             else advance_range rs ts (i + 1) None)
          else Inr (i, Some rg))"
  by pat_completeness auto
termination
  by (relation "measure (\<lambda>(rs, ts, i, r). case r of None \<Rightarrow> 0 | Some _ \<Rightarrow> Suc (length rs - i))")
     auto

text \<open>The assignment to \<^verbatim>\<open>self._conf.current_ts\<close>.\<close>

definition set_current_ts :: "analysis \<Rightarrow> nat \<Rightarrow> analysis" where
  "set_current_ts s i = s\<lparr>conf := (conf s)\<lparr>current_ts := Some i\<rparr>\<rparr>"

text \<open>
  \<^verbatim>\<open>_check_analysis\<close>, in the order of the source. \<open>close_window\<close> is the block
  under \<^verbatim>\<open>if not self._conf.accumulate\<close> that follows the loop, \<open>enter_range\<close> the
  chain \<^verbatim>\<open>if range_ts is None ... elif ... elif ...\<close> after it, \<open>check_started\<close> the
  branch \<^verbatim>\<open>if self.started\<close> and \<open>check_not_started\<close> its \<^verbatim>\<open>else\<close>.
\<close>

definition close_window :: "analysis \<Rightarrow> error + analysis" where
  "close_window s =
     (if accumulate (conf s) then Inr s
      else reset ((end_period s)\<lparr>period_start_ts := None\<rparr>))"

definition enter_range :: "analysis \<Rightarrow> int \<Rightarrow> time_range option \<Rightarrow> analysis" where
  "enter_range s ts r =
     (case r of
        None \<Rightarrow> s\<lparr>ended := True\<rparr>
      | Some rg \<Rightarrow>
          if (case range_begin rg of None \<Rightarrow> False | Some b \<Rightarrow> ts < b)
          then s\<lparr>started := False\<rparr>
          else if accumulate (conf s) then s
          else s\<lparr>period_start_ts := Some ts\<rparr>)"

definition check_started ::
  "analysis \<Rightarrow> int \<Rightarrow> time_range list \<Rightarrow> nat \<Rightarrow> error + analysis" where
  "check_started s ts rs i =
     (case range_end (rs ! i) of
        None \<Rightarrow> Inr s
      | Some e \<Rightarrow>
          if ts > e then
            (case advance_range rs ts i (Some (rs ! i)) of
               Inl err \<Rightarrow> Inl err
             | Inr (i', r') \<Rightarrow>
                 (case close_window (set_current_ts s i') of
                    Inl err \<Rightarrow> Inl err
                  | Inr s2 \<Rightarrow> Inr (enter_range s2 ts r')))
          else Inr s)"

definition check_not_started :: "analysis \<Rightarrow> int \<Rightarrow> time_range \<Rightarrow> error + analysis" where
  "check_not_started s ts r =
     (case range_begin r of
        None \<Rightarrow> Inr s
      | Some b \<Rightarrow>
          if ts \<ge> b then
            (if period_start_ts s = None
             then reset (s\<lparr>started := True, period_start_ts := Some ts\<rparr>)
             else Inr (s\<lparr>started := True\<rparr>))
          else Inr s)"

definition check_analysis :: "analysis \<Rightarrow> event \<Rightarrow> error + analysis" where
  "check_analysis s ev =
     (let rs = ranges (conf s) in
      if rs = [] then Inr s
      else
        let i = (case current_ts (conf s) of None \<Rightarrow> 0 | Some j \<Rightarrow> j);
            s1 = set_current_ts s i
        in
        if length rs \<le> i then Inl IndexError
        else if started s1 then check_started s1 (timestamp ev) rs i
        else check_not_started s1 (timestamp ev) (rs ! i))"

subsection \<open>Refresh interval\<close>

text \<open>
  \<^verbatim>\<open>_check_refresh\<close>. The test \<^verbatim>\<open>not self._period_start_ts\<close> holds of \<^verbatim>\<open>None\<close>
  and of 0. The sum \<^verbatim>\<open>_period_start_ts + refresh_period\<close> raises \<^verbatim>\<open>TypeError\<close>
  when no refresh period is configured.
\<close>

definition check_refresh :: "analysis \<Rightarrow> event \<Rightarrow> error + analysis" where
  "check_refresh s ev =
     (case period_start_ts s of
        None \<Rightarrow> Inr (s\<lparr>period_start_ts := Some (timestamp ev)\<rparr>)
      | Some p \<Rightarrow>
          if p = 0 then Inr (s\<lparr>period_start_ts := Some (timestamp ev)\<rparr>)
          else
            (case refresh_period (conf s) of
               None \<Rightarrow> Inl TypeError
             | Some rp \<Rightarrow>
                 if timestamp ev \<ge> p + rp
                 then Inr ((end_period s)\<lparr>period_start_ts := Some (timestamp ev)\<rparr>)
                 else Inr s))"

subsection \<open>Keyed periods\<close>

text \<open>
  The loop of \<^verbatim>\<open>_get_period_event_key\<close>, with the list \<^verbatim>\<open>key_values\<close> as the
  accumulator; the caught \<^verbatim>\<open>KeyError\<close> is the result \<open>None\<close>.
\<close>

fun key_values :: "event \<Rightarrow> string list \<Rightarrow> pyval list \<Rightarrow> pyval list option" where
  "key_values ev [] acc = Some acc"
| "key_values ev (f # fs) acc =
     (case ev_fields ev f of
        None \<Rightarrow> None
      | Some v \<Rightarrow> key_values ev fs (acc @ [v]))"

definition get_period_event_key :: "event \<Rightarrow> string list option \<Rightarrow> pyval list option" where
  "get_period_event_key ev key_fields =
     (case key_fields of
        None \<Rightarrow> None
      | Some fs \<Rightarrow> if fs = [] then None else key_values ev fs [])"

text \<open>
  \<^verbatim>\<open>_handle_period_event\<close>. An event name differs from an event name that is not
  configured. The tests \<^verbatim>\<open>if self._period_key\<close> and \<^verbatim>\<open>if not period_key\<close> fail on
  \<^verbatim>\<open>None\<close> and on the empty tuple, \<^verbatim>\<open>if self._conf.period_end_ev_name\<close> on
  \<^verbatim>\<open>None\<close> and on the empty string.
\<close>

definition handle_period_event :: "analysis \<Rightarrow> event \<Rightarrow> error + analysis" where
  "handle_period_event s ev =
     (if Some (name ev) \<noteq> period_begin_ev_name (conf s) \<and>
         Some (name ev) \<noteq> period_end_ev_name (conf s)
      then Inr s
      else if truthy_seq (period_key s) then
        (case get_period_event_key ev (period_end_key_fields (conf s)) of
           None \<Rightarrow> Inr s
         | Some k \<Rightarrow>
             if k = [] then Inr s
             else if Some k = period_key s then
               (if truthy_seq (period_end_ev_name (conf s)) then
                  (if Some (name ev) = period_end_ev_name (conf s)
                   then Inr ((end_period s)\<lparr>period_key := None, period_start_ts := None\<rparr>)
                   else Inr s)
                else if Some (name ev) = period_begin_ev_name (conf s)
                  then begin_period (end_period s) k (timestamp ev)
                else Inr s)
             else Inr s)
      else if Some (name ev) = period_begin_ev_name (conf s) then
        (case get_period_event_key ev (period_begin_key_fields (conf s)) of
           None \<Rightarrow> Inr s
         | Some k \<Rightarrow>
             if k = [] then Inr s
             else if truthy_seq (period_key_value (conf s)) \<and>
                     period_key_value (conf s) \<noteq> Some (map py_str k)
               then Inr s
             else begin_period s k (timestamp ev))
      else Inr s)"

subsection \<open>The entry points\<close>

text \<open>
  The test of \<^verbatim>\<open>process_event\<close> on the first range: \<^verbatim>\<open>not range_ts\<close>, or the first
  range has no begin bound.
\<close>

definition first_begin_unset :: "analysis_config \<Rightarrow> bool" where
  "first_begin_unset c =
     (case ranges c of [] \<Rightarrow> True | r # _ \<Rightarrow> range_begin r = None)"

text \<open>
  The first statements of \<^verbatim>\<open>process_event\<close>: the event's timestamp is recorded, and
  while \<^verbatim>\<open>current_ts\<close> is \<^verbatim>\<open>None\<close> and the first range has no begin bound (or
  there is no range) the period start is stamped and the engine started.
\<close>

definition stamp_event :: "analysis \<Rightarrow> event \<Rightarrow> analysis" where
  "stamp_event s ev =
     (let s0 = s\<lparr>last_event_ts := Some (timestamp ev)\<rparr> in
      if current_ts (conf s0) = None \<and> first_begin_unset (conf s0)
      then s0\<lparr>period_start_ts := Some (timestamp ev), started := True\<rparr>
      else s0)"

definition process_event :: "analysis \<Rightarrow> event \<Rightarrow> error + analysis" where
  "process_event s ev =
     (case check_analysis (stamp_event s ev) ev of
        Inl err \<Rightarrow> Inl err
      | Inr s2 \<Rightarrow>
          if \<not> started s2 then Inr s2
          else if ended s2 then Inr s2
          else if period_begin_ev_name (conf s2) \<noteq> None then handle_period_event s2 ev
          else if refresh_period (conf s2) \<noteq> None then check_refresh s2 ev
          else Inr s2)"

text \<open>\<^verbatim>\<open>end\<close>, a reserved word here.\<close>

definition end_analysis :: "analysis \<Rightarrow> analysis" where
  "end_analysis s = (if truthy_ts (period_start_ts s) then end_period s else s)"

text \<open>
  The caller's loop: the events of a trace are handed to \<^verbatim>\<open>process_event\<close> one at a
  time, in order; an exception ends the run.
\<close>

fun process_events :: "analysis \<Rightarrow> event list \<Rightarrow> error + analysis" where
  "process_events s [] = Inr s"
| "process_events s (ev # evs) =
     (case process_event s ev of
        Inl err \<Rightarrow> Inl err
      | Inr s' \<Rightarrow> process_events s' evs)"

text \<open>The per-event-name callback calls of an effect trace.\<close>

fun is_call :: "effect \<Rightarrow> bool" where
  "is_call (Call cb ev) = True"
| "is_call e = False"

subsection \<open>Example engines and events\<close>

text \<open>
  Concrete inputs for the examples below: events without fields, events that carry one
  field \<^verbatim>\<open>id\<close>, a concrete analysis (one that overrides \<^verbatim>\<open>reset\<close>) with one
  subscriber, callback 1, of the \<^verbatim>\<open>tick\<close> notification, and the configurations they
  run under.
\<close>

definition plain_event :: "int \<Rightarrow> event" where
  "plain_event t = \<lparr>name = ''sched_switch'', timestamp = t, ev_fields = Map.empty\<rparr>"

definition keyed_event :: "string \<Rightarrow> int \<Rightarrow> string \<Rightarrow> event" where
  "keyed_event n t k = \<lparr>name = n, timestamp = t, ev_fields = [''id'' \<mapsto> PStr k]\<rparr>"

definition tick_engine :: "analysis_config \<Rightarrow> analysis" where
  "tick_engine c = register_notification_cbs (new_analysis c True) [(TICK_CB, 1)]"

definition two_ranges :: "time_range list" where
  "two_ranges =
     [\<lparr>range_begin = Some 10, range_end = Some 20\<rparr>,
      \<lparr>range_begin = Some 30, range_end = Some 40\<rparr>]"

definition keyed_conf :: analysis_config where
  "keyed_conf =
     AnalysisConfig
       \<lparr>period_begin_ev_name := Some ''req_begin'', period_end_ev_name := Some ''req_end'',
        period_begin_key_fields := Some [''id''], period_end_key_fields := Some [''id'']\<rparr>"

definition syscall_engine :: analysis where
  "syscall_engine =
     register_cbs (tick_engine AnalysisConfig)
       [''sched_switch'' \<mapsto> 7, ''syscall_entry'' \<mapsto> 8, ''syscall_exit'' \<mapsto> 9]"

definition named_event :: "string \<Rightarrow> event" where
  "named_event n = \<lparr>name = n, timestamp = 5, ev_fields = Map.empty\<rparr>"




text \<open>
  An accumulating engine inside the first of two ranges, as it stands after events at
  times 10 and 15.
\<close>

definition crossing_state :: analysis where
  "crossing_state =
     (tick_engine (AnalysisConfig\<lparr>range_ts := Some two_ranges, accumulate := True,
                                   current_ts := Some 0\<rparr>))
       \<lparr>started := True, period_start_ts := Some 10, last_event_ts := Some 15,
        effects := [Reset]\<rparr>"

text \<open>A keyed-period configuration that names the begin-event but no key fields.\<close>

definition unkeyed_engine :: analysis where
  "unkeyed_engine = tick_engine (AnalysisConfig\<lparr>period_begin_ev_name := Some ''req_begin''\<rparr>)"

section \<open>Evaluation and frame lemmas\<close>

text \<open>The definitions a concrete run unfolds.\<close>

lemmas engine_defs = plain_event_def keyed_event_def tick_engine_def two_ranges_def keyed_conf_def
  new_analysis_def AnalysisConfig_def
  TICK_CB_def process_event_def stamp_event_def check_analysis_def check_started_def
  check_not_started_def close_window_def enter_range_def first_begin_unset_def ranges_def
  set_current_ts_def reset_def end_period_def end_period_cb_def send_notification_cb_def
  handle_period_event_def check_refresh_def begin_period_def get_period_event_key_def
  truthy_seq_def truthy_ts_def end_analysis_def register_cbs_def



text \<open>Key extraction.\<close>

lemma get_period_event_key_unset:
  "kf = None \<or> kf = Some [] \<Longrightarrow> get_period_event_key ev kf = None"
  by (auto simp: get_period_event_key_def)

lemma key_values_missing:
  "f \<in> set fs \<Longrightarrow> ev_fields ev f = None \<Longrightarrow> key_values ev fs acc = None"
  by (induction fs arbitrary: acc) (auto split: option.splits)

lemma get_period_event_key_missing:
  "f \<in> set fs \<Longrightarrow> ev_fields ev f = None \<Longrightarrow> get_period_event_key ev (Some fs) = None"
  by (auto simp: get_period_event_key_def key_values_missing)

text \<open>What each step of the engine leaves unchanged.\<close>

lemma set_current_ts_frame:
  "period_key (set_current_ts s i) = period_key s"
  "period_start_ts (set_current_ts s i) = period_start_ts s"
  "effects (set_current_ts s i) = effects s"
  "started (set_current_ts s i) = started s"
  "reset_overridden (set_current_ts s i) = reset_overridden s"
  "period_begin_ev_name (conf (set_current_ts s i)) = period_begin_ev_name (conf s)"
  "period_begin_key_fields (conf (set_current_ts s i)) = period_begin_key_fields (conf s)"
  "accumulate (conf (set_current_ts s i)) = accumulate (conf s)"
  "current_ts (conf (set_current_ts s i)) = Some i"
  by (simp_all add: set_current_ts_def)

lemma end_period_frame:
  "conf (end_period s) = conf s" "period_key (end_period s) = period_key s"
  "period_start_ts (end_period s) = period_start_ts s"
  "reset_overridden (end_period s) = reset_overridden s"
  "filter is_call (effects (end_period s)) = filter is_call (effects s)"
  by (simp_all add: end_period_def end_period_cb_def send_notification_cb_def
      split: option.splits)

lemma reset_Inr:
  "reset s = Inr s' \<longleftrightarrow> reset_overridden s \<and> s' = s\<lparr>effects := effects s @ [Reset]\<rparr>"
  by (auto simp: reset_def)

lemma close_window_frame:
  assumes "close_window s = Inr s'"
  shows "period_key s' = period_key s" and "conf s' = conf s"
    and "filter is_call (effects s') = filter is_call (effects s)"
  using assms
  by (auto simp: close_window_def reset_Inr end_period_frame split: if_splits)

lemma enter_range_frame:
  "period_key (enter_range s ts r) = period_key s"
  "conf (enter_range s ts r) = conf s"
  "effects (enter_range s ts r) = effects s"
  by (simp_all add: enter_range_def split: option.splits)

lemma check_started_cases:
  assumes "check_started s ts rs i = Inr s'"
  obtains (stay) "s' = s" and "\<nexists>e. range_end (rs ! i) = Some e \<and> ts > e"
  | (cross) e i' r' s2 where "range_end (rs ! i) = Some e" and "ts > e"
      and "advance_range rs ts i (Some (rs ! i)) = Inr (i', r')"
      and "close_window (set_current_ts s i') = Inr s2"
      and "s' = enter_range s2 ts r'"
proof (cases "range_end (rs ! i)")
  case None
  with assms have "s' = s" by (simp add: check_started_def)
  with None show thesis by (intro stay) simp_all
next
  case (Some e)
  show thesis
  proof (cases "ts > e")
    case False
    with Some assms have "s' = s" by (simp add: check_started_def)
    with Some False show thesis by (intro stay) simp_all
  next
    case True
    with Some assms obtain p where p: "advance_range rs ts i (Some (rs ! i)) = Inr p"
      by (cases "advance_range rs ts i (Some (rs ! i))") (simp_all add: check_started_def)
    obtain i' r' where ir: "p = (i', r')" by (cases p)
    with Some True assms p obtain s2 where s2: "close_window (set_current_ts s i') = Inr s2"
      by (cases "close_window (set_current_ts s i')") (simp_all add: check_started_def)
    with Some True assms p ir have "s' = enter_range s2 ts r'"
      by (simp add: check_started_def)
    with Some True p ir s2 show thesis by (auto intro: cross)
  qed
qed

lemma check_started_frame:
  assumes "check_started s ts rs i = Inr s'"
  shows "period_key s' = period_key s"
    and "period_begin_ev_name (conf s') = period_begin_ev_name (conf s)"
    and "period_begin_key_fields (conf s') = period_begin_key_fields (conf s)"
    and "filter is_call (effects s') = filter is_call (effects s)"
proof -
  have "period_key s' = period_key s \<and>
    period_begin_ev_name (conf s') = period_begin_ev_name (conf s) \<and>
    period_begin_key_fields (conf s') = period_begin_key_fields (conf s) \<and>
    filter is_call (effects s') = filter is_call (effects s)"
    using assms
  proof (cases rule: check_started_cases)
    case stay
    then show ?thesis by simp
  next
    case (cross e i' r' s2)
    from close_window_frame [OF cross(4)] cross(5) show ?thesis
      by (simp add: enter_range_frame set_current_ts_frame)
  qed
  then show "period_key s' = period_key s"
    and "period_begin_ev_name (conf s') = period_begin_ev_name (conf s)"
    and "period_begin_key_fields (conf s') = period_begin_key_fields (conf s)"
    and "filter is_call (effects s') = filter is_call (effects s)"
    by simp_all
qed

lemma check_not_started_frame:
  assumes "check_not_started s ts r = Inr s'"
  shows "period_key s' = period_key s"
    and "period_begin_ev_name (conf s') = period_begin_ev_name (conf s)"
    and "period_begin_key_fields (conf s') = period_begin_key_fields (conf s)"
    and "filter is_call (effects s') = filter is_call (effects s)"
  using assms
  by (auto simp: check_not_started_def reset_Inr split: option.splits if_splits)

lemma check_analysis_cases:
  assumes "check_analysis s ev = Inr s'"
  obtains (no_ranges) "s' = s"
  | (started) i where "check_started (set_current_ts s i) (timestamp ev) (ranges (conf s)) i = Inr s'"
  | (not_started) i where
      "check_not_started (set_current_ts s i) (timestamp ev) (ranges (conf s) ! i) = Inr s'"
proof (cases "ranges (conf s) = []")
  case True
  with assms have "s' = s" by (simp add: check_analysis_def)
  then show thesis by (rule no_ranges)
next
  case False
  define i where "i = (case current_ts (conf s) of None \<Rightarrow> 0 | Some j \<Rightarrow> j)"
  show thesis
  proof (cases "started s")
    case True
    with False assms
    have "check_started (set_current_ts s i) (timestamp ev) (ranges (conf s)) i = Inr s'"
      by (simp add: check_analysis_def Let_def set_current_ts_frame i_def split: if_splits)
    then show thesis by (rule started)
  next
    case stopped: False
    with False assms
    have "check_not_started (set_current_ts s i) (timestamp ev) (ranges (conf s) ! i) = Inr s'"
      by (simp add: check_analysis_def Let_def set_current_ts_frame i_def split: if_splits)
    then show thesis by (rule not_started)
  qed
qed

lemma check_analysis_frame:
  assumes "check_analysis s ev = Inr s'"
  shows "period_key s' = period_key s"
    and "period_begin_ev_name (conf s') = period_begin_ev_name (conf s)"
    and "period_begin_key_fields (conf s') = period_begin_key_fields (conf s)"
    and "filter is_call (effects s') = filter is_call (effects s)"
proof -
  have "period_key s' = period_key s \<and>
    period_begin_ev_name (conf s') = period_begin_ev_name (conf s) \<and>
    period_begin_key_fields (conf s') = period_begin_key_fields (conf s) \<and>
    filter is_call (effects s') = filter is_call (effects s)"
    using assms
  proof (cases rule: check_analysis_cases)
    case no_ranges
    then show ?thesis by simp
  next
    case (started i)
    from check_started_frame [OF this] show ?thesis
      by (simp add: set_current_ts_frame)
  next
    case (not_started i)
    from check_not_started_frame [OF this] show ?thesis
      by (simp add: set_current_ts_frame)
  qed
  then show "period_key s' = period_key s"
    and "period_begin_ev_name (conf s') = period_begin_ev_name (conf s)"
    and "period_begin_key_fields (conf s') = period_begin_key_fields (conf s)"
    and "filter is_call (effects s') = filter is_call (effects s)"
    by simp_all
qed

lemma stamp_event_frame:
  "period_key (stamp_event s ev) = period_key s"
  "period_begin_ev_name (conf (stamp_event s ev)) = period_begin_ev_name (conf s)"
  "period_begin_key_fields (conf (stamp_event s ev)) = period_begin_key_fields (conf s)"
  "effects (stamp_event s ev) = effects s"
  by (simp_all add: stamp_event_def Let_def)

lemma begin_period_calls:
  "begin_period s k ts = Inr s' \<Longrightarrow> filter is_call (effects s') = filter is_call (effects s)"
  by (auto simp: begin_period_def reset_Inr)

lemma handle_period_event_calls:
  assumes "handle_period_event s ev = Inr s'"
  shows "filter is_call (effects s') = filter is_call (effects s)"
  using assms
  by (auto simp: handle_period_event_def end_period_frame
      dest!: begin_period_calls split: if_splits option.splits)

lemma check_refresh_calls:
  assumes "check_refresh s ev = Inr s'"
  shows "filter is_call (effects s') = filter is_call (effects s)"
  using assms
  by (auto simp: check_refresh_def end_period_frame split: if_splits option.splits)

lemma process_event_cases:
  assumes "process_event s ev = Inr s'"
  obtains s2 where "check_analysis (stamp_event s ev) ev = Inr s2"
    and "s' = s2 \<or> handle_period_event s2 ev = Inr s' \<or> check_refresh s2 ev = Inr s'"
proof -
  from assms obtain s2 where s2: "check_analysis (stamp_event s ev) ev = Inr s2"
    by (cases "check_analysis (stamp_event s ev) ev") (simp_all add: process_event_def)
  with assms have "s' = s2 \<or> handle_period_event s2 ev = Inr s' \<or> check_refresh s2 ev = Inr s'"
    by (simp add: process_event_def split: if_splits)
  with s2 show thesis by (rule that)
qed

lemma process_event_calls:
  assumes "process_event s ev = Inr s'"
  shows "filter is_call (effects s') = filter is_call (effects s)"
  using assms
proof (cases rule: process_event_cases)
  case (1 s2)
  from check_analysis_frame(4) [OF 1(1)]
  have "filter is_call (effects s2) = filter is_call (effects s)"
    by (simp add: stamp_event_frame)
  with 1(2) show ?thesis
    using handle_period_event_calls [of s2 ev s'] check_refresh_calls [of s2 ev s'] by auto
qed

lemma handle_period_event_no_key_fields:
  assumes "period_begin_key_fields (conf s) = None \<or> period_begin_key_fields (conf s) = Some []"
    and "period_key s = None"
  shows "handle_period_event s ev = Inr s"
  using assms get_period_event_key_unset [of "period_begin_key_fields (conf s)" ev]
  by (simp add: handle_period_event_def truthy_seq_def)

lemma process_event_no_key_fields:
  assumes "period_begin_ev_name (conf s) \<noteq> None"
    and "period_begin_key_fields (conf s) = None \<or> period_begin_key_fields (conf s) = Some []"
    and "period_key s = None"
  shows "process_event s ev = check_analysis (stamp_event s ev) ev"
proof (cases "check_analysis (stamp_event s ev) ev")
  case (Inl err)
  then show ?thesis by (simp add: process_event_def)
next
  case (Inr s2)
  from check_analysis_frame [OF Inr] assms
  have "period_begin_ev_name (conf s2) \<noteq> None" and "handle_period_event s2 ev = Inr s2"
    by (simp_all add: stamp_event_frame handle_period_event_no_key_fields)
  with Inr show ?thesis by (simp add: process_event_def)
qed

lemma process_events_no_key_fields:
  assumes "period_begin_ev_name (conf s) \<noteq> None"
    and "period_begin_key_fields (conf s) = None \<or> period_begin_key_fields (conf s) = Some []"
    and "period_key s = None"
    and "process_events s evs = Inr s'"
  shows "period_key s' = None \<and>
         period_begin_ev_name (conf s') = period_begin_ev_name (conf s) \<and>
         period_begin_key_fields (conf s') = period_begin_key_fields (conf s)"
  using assms
proof (induction evs arbitrary: s)
  case Nil
  then show ?case by simp
next
  case (Cons ev evs)
  from Cons.prems(4) obtain s1 where s1: "process_event s ev = Inr s1"
    and rest: "process_events s1 evs = Inr s'"
    by (cases "process_event s ev") simp_all
  from s1 process_event_no_key_fields [OF Cons.prems(1-3)]
  have "check_analysis (stamp_event s ev) ev = Inr s1" by simp
  from check_analysis_frame [OF this] Cons.prems(1-3)
  have step: "period_begin_ev_name (conf s1) = period_begin_ev_name (conf s)"
    "period_begin_key_fields (conf s1) = period_begin_key_fields (conf s)"
    "period_key s1 = None"
    by (simp_all add: stamp_event_frame)
  with Cons.prems(1,2)
  have "period_begin_ev_name (conf s1) \<noteq> None"
    and "period_begin_key_fields (conf s1) = None \<or> period_begin_key_fields (conf s1) = Some []"
    by simp_all
  from Cons.IH [OF this step(3) rest] step show ?case by simp
qed

text \<open>An event without a key field, in the method and in the entry point.\<close>

lemma check_started_end_key_fields:
  assumes "check_started s ts rs i = Inr s'"
  shows "period_end_key_fields (conf s') = period_end_key_fields (conf s)"
  using assms
proof (cases rule: check_started_cases)
  case stay
  then show ?thesis by simp
next
  case (cross e i' r' s2)
  from close_window_frame(2) [OF cross(4)] cross(5) show ?thesis
    by (simp add: enter_range_frame set_current_ts_def)
qed

lemma check_not_started_end_key_fields:
  assumes "check_not_started s ts r = Inr s'"
  shows "period_end_key_fields (conf s') = period_end_key_fields (conf s)"
  using assms
  by (auto simp: check_not_started_def reset_Inr split: option.splits if_splits)

lemma check_analysis_end_key_fields:
  assumes "check_analysis s ev = Inr s'"
  shows "period_end_key_fields (conf s') = period_end_key_fields (conf s)"
  using assms
proof (cases rule: check_analysis_cases)
  case no_ranges
  then show ?thesis by simp
next
  case (started i)
  from check_started_end_key_fields [OF this] show ?thesis
    by (simp add: set_current_ts_def)
next
  case (not_started i)
  from check_not_started_end_key_fields [OF this] show ?thesis
    by (simp add: set_current_ts_def)
qed

lemma missing_key_field_handle:
  assumes "(truthy_seq (period_key s) \<and> period_end_key_fields (conf s) = Some fs) \<or>
           (\<not> truthy_seq (period_key s) \<and> period_begin_key_fields (conf s) = Some fs)"
    and "f \<in> set fs" and "ev_fields ev f = None"
  shows "handle_period_event s ev = Inr s"
  using assms get_period_event_key_missing [of f fs ev]
  by (auto simp: handle_period_event_def)

lemma missing_key_field_process:
  assumes "(truthy_seq (period_key s) \<and> period_end_key_fields (conf s) = Some fs) \<or>
           (\<not> truthy_seq (period_key s) \<and> period_begin_key_fields (conf s) = Some fs)"
    and "f \<in> set fs" and "ev_fields ev f = None"
    and "period_begin_ev_name (conf s) \<noteq> None"
  shows "process_event s ev = check_analysis (stamp_event s ev) ev"
proof (cases "check_analysis (stamp_event s ev) ev")
  case (Inl err)
  then show ?thesis by (simp add: process_event_def)
next
  case (Inr s2)
  from check_analysis_frame [OF Inr] check_analysis_end_key_fields [OF Inr]
  have same: "period_key s2 = period_key s"
    "period_begin_ev_name (conf s2) = period_begin_ev_name (conf s)"
    "period_begin_key_fields (conf s2) = period_begin_key_fields (conf s)"
    "period_end_key_fields (conf s2) = period_end_key_fields (conf s)"
    by (simp_all add: stamp_event_frame stamp_event_def Let_def)
  with assms(1)
  have "(truthy_seq (period_key s2) \<and> period_end_key_fields (conf s2) = Some fs) \<or>
        (\<not> truthy_seq (period_key s2) \<and> period_begin_key_fields (conf s2) = Some fs)"
    by simp
  from missing_key_field_handle [OF this assms(2,3)] same(2) assms(4) Inr
  show ?thesis by (simp add: process_event_def)
qed









lemma handle_period_event_end_match:
  assumes "period_key s = Some K" and "K \<noteq> []"
    and "period_end_ev_name (conf s) = Some en" and "en \<noteq> []"
  shows "handle_period_event s ev =
           (if name ev = en \<and>
               get_period_event_key ev (period_end_key_fields (conf s)) = Some K
            then Inr ((end_period s)\<lparr>period_key := None, period_start_ts := None\<rparr>)
            else Inr s)"
  using assms
  by (auto simp: handle_period_event_def truthy_seq_def split: option.splits)

text \<open>The loop over the range list.\<close>

lemma advance_range_mono:
  "advance_range rs ts i r = Inr (i', r') \<Longrightarrow> i \<le> i'"
proof (induction rs ts i r rule: advance_range.induct)
  case (1 rs ts i)
  then show ?case by simp
next
  case (2 rs ts i rg)
  show ?case
  proof (cases "range_end rg")
    case None
    with "2.prems" show ?thesis by simp
  next
    case (Some e)
    show ?thesis
    proof (cases "ts > e")
      case False
      with Some "2.prems" show ?thesis by simp
    next
      case True
      show ?thesis
      proof (cases "length rs > i + 1")
        case long: True
        with Some True "2.prems"
        have "advance_range rs ts (i + 1) (Some (rs ! (i + 1))) = Inr (i', r')" by simp
        from "2.IH"(1) [OF Some True long this] show ?thesis by simp
      next
        case short: False
        with Some True "2.prems" show ?thesis by simp
      qed
    qed
  qed
qed

lemma advance_range_strict:
  assumes "range_end rg = Some e" and "ts > e"
    and "advance_range rs ts i (Some rg) = Inr (i', r')"
  shows "i < i'"
proof (cases "length rs > i + 1")
  case True
  with assms have "advance_range rs ts (i + 1) (Some (rs ! (i + 1))) = Inr (i', r')" by simp
  from advance_range_mono [OF this] show ?thesis by simp
next
  case False
  with assms show ?thesis by simp
qed

lemma advance_range_total:
  "\<forall>r \<in> set rs. range_end r \<noteq> None \<Longrightarrow>
   r = None \<or> (\<exists>rg. r = Some rg \<and> range_end rg \<noteq> None) \<Longrightarrow>
   \<exists>p. advance_range rs ts i r = Inr p"
proof (induction rs ts i r rule: advance_range.induct)
  case (1 rs ts i)
  then show ?case by simp
next
  case (2 rs ts i rg)
  from "2.prems"(2) obtain e where e: "range_end rg = Some e" by auto
  show ?case
  proof (cases "ts > e")
    case False
    with e show ?thesis by simp
  next
    case True
    show ?thesis
    proof (cases "length rs > i + 1")
      case long: True
      then have "rs ! (i + 1) \<in> set rs" by (intro nth_mem) simp
      with "2.prems"(1) have "range_end (rs ! (i + 1)) \<noteq> None" by blast
      then have "\<exists>p. advance_range rs ts (i + 1) (Some (rs ! (i + 1))) = Inr p"
        using "2.IH"(1) [OF e True long "2.prems"(1)] by simp
      with e True long show ?thesis by simp
    next
      case short: False
      with e True show ?thesis by simp
    qed
  qed
qed

lemma check_started_accumulate:
  assumes "accumulate (conf s)" and "check_started s ts rs i = Inr s'"
  shows "effects s' = effects s \<and> period_start_ts s' = period_start_ts s"
  using assms(2)
proof (cases rule: check_started_cases)
  case stay
  then show ?thesis by simp
next
  case (cross e i' r' s2)
  from cross(4) assms(1) have "s2 = set_current_ts s i'"
    by (simp add: close_window_def set_current_ts_frame)
  with cross(5) assms(1) show ?thesis
    by (simp add: enter_range_def set_current_ts_frame split: option.splits)
qed

lemma check_started_current_ts:
  assumes "range_end (rs ! i) = Some e" and "ts > e" and "check_started s ts rs i = Inr s'"
  shows "\<exists>i'. current_ts (conf s') = Some i' \<and> i < i'"
  using assms(3)
proof (cases rule: check_started_cases)
  case stay
  with assms(1,2) show ?thesis by simp
next
  case (cross e' i' r' s2)
  from advance_range_strict [OF assms(1,2) cross(3)] have "i < i'" .
  moreover from close_window_frame(2) [OF cross(4)] cross(5)
  have "current_ts (conf s') = Some i'"
    by (simp add: enter_range_frame set_current_ts_frame)
  ultimately show ?thesis by simp
qed

section \<open>Dispatch to per-event-name callbacks\<close>

text \<open>
  Claim C1, as amended. \<^verbatim>\<open>process_event\<close> itself never calls a per-event-name
  callback: whatever it returns, the callback calls of the trace are those it started
  with. Dispatch is the separate method \<^verbatim>\<open>_process_event_cb\<close>. Whenever it is called
  it calls at most one callback: the one registered under the event's exact name;
  otherwise the \<^verbatim>\<open>syscall_entry\<close> callback for a name that starts with \<^verbatim>\<open>sys_\<close> or
  \<^verbatim>\<open>syscall_entry_\<close>; otherwise the \<^verbatim>\<open>syscall_exit\<close> callback for a name that
  starts with \<^verbatim>\<open>exit_syscall\<close> or \<^verbatim>\<open>syscall_exit_\<close>; otherwise none. It reads
  neither \<^verbatim>\<open>started\<close> nor \<^verbatim>\<open>ended\<close>.
\<close>

theorem dispatch_amended:
  "(process_event s ev = Inr s' \<longrightarrow>
      filter is_call (effects s') = filter is_call (effects s)) \<and>
   (cbs s (name ev) = Some cb \<longrightarrow>
      process_event_cb s ev = s\<lparr>effects := effects s @ [Call cb ev]\<rparr>) \<and>
   (cbs s (name ev) = None \<and> cbs s ''syscall_entry'' = Some cb \<and>
    (prefix ''sys_'' (name ev) \<or> prefix ''syscall_entry_'' (name ev)) \<longrightarrow>
      process_event_cb s ev = s\<lparr>effects := effects s @ [Call cb ev]\<rparr>) \<and>
   (cbs s (name ev) = None \<and>
    (cbs s ''syscall_entry'' = None \<or>
     \<not> (prefix ''sys_'' (name ev) \<or> prefix ''syscall_entry_'' (name ev))) \<and>
    cbs s ''syscall_exit'' = Some cb \<and>
    (prefix ''exit_syscall'' (name ev) \<or> prefix ''syscall_exit_'' (name ev)) \<longrightarrow>
      process_event_cb s ev = s\<lparr>effects := effects s @ [Call cb ev]\<rparr>) \<and>
   (cbs s (name ev) = None \<and>
    (cbs s ''syscall_entry'' = None \<or>
     \<not> (prefix ''sys_'' (name ev) \<or> prefix ''syscall_entry_'' (name ev))) \<and>
    (cbs s ''syscall_exit'' = None \<or>
     \<not> (prefix ''exit_syscall'' (name ev) \<or> prefix ''syscall_exit_'' (name ev))) \<longrightarrow>
      process_event_cb s ev = s) \<and>
   process_event_cb (s\<lparr>started := a, ended := b\<rparr>) ev =
     (process_event_cb s ev)\<lparr>started := a, ended := b\<rparr>"
  (is "?silent \<and> ?exact \<and> ?entry \<and> ?exit \<and> ?none \<and> ?ungated")
proof (intro conjI)
  show ?silent by (auto dest: process_event_calls)
  show ?exact by (simp add: process_event_cb_def call_cb_def)
  show ?entry by (simp add: process_event_cb_def call_cb_def)
  show ?exit by (auto simp: process_event_cb_def call_cb_def)
  show ?none by (auto simp: process_event_cb_def call_cb_def)
  show ?ungated by (simp add: process_event_cb_def call_cb_def split: option.splits)
qed

text \<open>
  The amended statement at an engine with callbacks 7, 8 and 9 registered under
  \<^verbatim>\<open>sched_switch\<close>, \<^verbatim>\<open>syscall_entry\<close> and \<^verbatim>\<open>syscall_exit\<close>, and at one with none.
\<close>

theorem dispatch_amended_witness:
  "map_sum id (filter is_call \<circ> effects) (process_event syscall_engine (named_event ''sched_switch''))
     = Inr [] \<and>
   effects (process_event_cb syscall_engine (named_event ''sched_switch'')) =
     [Call 7 (named_event ''sched_switch'')] \<and>
   effects (process_event_cb syscall_engine (named_event ''sys_open'')) =
     [Call 8 (named_event ''sys_open'')] \<and>
   effects (process_event_cb syscall_engine (named_event ''exit_syscall'')) =
     [Call 9 (named_event ''exit_syscall'')] \<and>
   process_event_cb (tick_engine AnalysisConfig) (named_event ''sched_switch'') =
     tick_engine AnalysisConfig"
proof -
  obtain s' where run: "process_event syscall_engine (named_event ''sched_switch'') = Inr s'"
    by (cases "process_event syscall_engine (named_event ''sched_switch'')")
       (simp_all add: syscall_engine_def named_event_def engine_defs)
  have base: "effects syscall_engine = []" "effects (tick_engine AnalysisConfig) = []"
    by (simp_all add: syscall_engine_def engine_defs)
  have "filter is_call (effects s') = []"
    using dispatch_amended [of syscall_engine "named_event ''sched_switch''" s',
        THEN conjunct1, THEN mp, OF run] base
    by simp
  with run have c1: "map_sum id (filter is_call \<circ> effects)
      (process_event syscall_engine (named_event ''sched_switch'')) = Inr []" by simp
  have exact: "cbs syscall_engine (name (named_event ''sched_switch'')) = Some 7"
    by (simp add: syscall_engine_def named_event_def engine_defs)
  have entry: "cbs syscall_engine (name (named_event ''sys_open'')) = None \<and>
      cbs syscall_engine ''syscall_entry'' = Some 8 \<and>
      (prefix ''sys_'' (name (named_event ''sys_open'')) \<or>
       prefix ''syscall_entry_'' (name (named_event ''sys_open'')))"
    by (simp add: syscall_engine_def named_event_def engine_defs)
  have exit: "cbs syscall_engine (name (named_event ''exit_syscall'')) = None \<and>
      (cbs syscall_engine ''syscall_entry'' = None \<or>
       \<not> (prefix ''sys_'' (name (named_event ''exit_syscall'')) \<or>
          prefix ''syscall_entry_'' (name (named_event ''exit_syscall'')))) \<and>
      cbs syscall_engine ''syscall_exit'' = Some 9 \<and>
      (prefix ''exit_syscall'' (name (named_event ''exit_syscall'')) \<or>
       prefix ''syscall_exit_'' (name (named_event ''exit_syscall'')))"
    by (simp add: syscall_engine_def named_event_def engine_defs)
  have none: "cbs (tick_engine AnalysisConfig) (name (named_event ''sched_switch'')) = None \<and>
      (cbs (tick_engine AnalysisConfig) ''syscall_entry'' = None \<or>
       \<not> (prefix ''sys_'' (name (named_event ''sched_switch'')) \<or>
          prefix ''syscall_entry_'' (name (named_event ''sched_switch'')))) \<and>
      (cbs (tick_engine AnalysisConfig) ''syscall_exit'' = None \<or>
       \<not> (prefix ''exit_syscall'' (name (named_event ''sched_switch'')) \<or>
          prefix ''syscall_exit_'' (name (named_event ''sched_switch''))))"
    by (simp add: named_event_def engine_defs)
  have c2: "effects (process_event_cb syscall_engine (named_event ''sched_switch'')) =
     [Call 7 (named_event ''sched_switch'')]"
    using dispatch_amended [of syscall_engine "named_event ''sched_switch''" _ 7,
        THEN conjunct2, THEN conjunct1, THEN mp, OF exact] base
    by simp
  have c3: "effects (process_event_cb syscall_engine (named_event ''sys_open'')) =
     [Call 8 (named_event ''sys_open'')]"
    using dispatch_amended [of syscall_engine "named_event ''sys_open''" _ 8,
        THEN conjunct2, THEN conjunct2, THEN conjunct1, THEN mp, OF entry] base
    by simp
  have c4: "effects (process_event_cb syscall_engine (named_event ''exit_syscall'')) =
     [Call 9 (named_event ''exit_syscall'')]"
    using dispatch_amended [of syscall_engine "named_event ''exit_syscall''" _ 9,
        THEN conjunct2, THEN conjunct2, THEN conjunct2, THEN conjunct1, THEN mp, OF exit] base
    by simp
  have c5: "process_event_cb (tick_engine AnalysisConfig) (named_event ''sched_switch'') =
     tick_engine AnalysisConfig"
    using dispatch_amended [of "tick_engine AnalysisConfig" "named_event ''sched_switch''",
        THEN conjunct2, THEN conjunct2, THEN conjunct2, THEN conjunct2, THEN conjunct1,
        THEN mp, OF none]
    by simp
  from c1 c2 c3 c4 c5 show ?thesis by simp
qed

text \<open>
  Claim C1 as stated fails: a started engine that has not ended, with a callback
  registered under the event's name, processes the event and calls nothing.
\<close>

theorem process_event_dispatch_counterexample:
  "cbs (register_cbs (tick_engine AnalysisConfig) [''sched_switch'' \<mapsto> 7]) (name (plain_event 5))
     = Some 7 \<and>
   map_sum id started
     (process_event (register_cbs (tick_engine AnalysisConfig) [''sched_switch'' \<mapsto> 7])
        (plain_event 5)) = Inr True \<and>
   map_sum id ended
     (process_event (register_cbs (tick_engine AnalysisConfig) [''sched_switch'' \<mapsto> 7])
        (plain_event 5)) = Inr False \<and>
   map_sum id effects
     (process_event (register_cbs (tick_engine AnalysisConfig) [''sched_switch'' \<mapsto> 7])
        (plain_event 5)) = Inr []"
  by (simp add: engine_defs)

section \<open>Range boundaries under accumulate\<close>

text \<open>
  Claim C2, as amended. With \<^verbatim>\<open>accumulate\<close> set and a range list configured, an event
  whose timestamp is past the end bound of the current range fires nothing in the
  range-gating step: whenever \<^verbatim>\<open>_check_analysis\<close> returns, the effect trace (no
  \<^verbatim>\<open>_end_period\<close>, no tick, no \<^verbatim>\<open>reset\<close>) and the period start are those it was
  called with, and \<^verbatim>\<open>current_ts\<close> has advanced. It does return when every range
  has an end bound.
\<close>

theorem accumulate_crossing_silent:
  assumes "accumulate (conf s)" and "started s"
    and "i = (case current_ts (conf s) of None \<Rightarrow> 0 | Some j \<Rightarrow> j)"
    and "i < length (ranges (conf s))"
    and "range_end (ranges (conf s) ! i) = Some e" and "timestamp ev > e"
  shows "(\<forall>s'. check_analysis s ev = Inr s' \<longrightarrow>
            effects s' = effects s \<and> period_start_ts s' = period_start_ts s \<and>
            (\<exists>i'. current_ts (conf s') = Some i' \<and> i < i')) \<and>
         ((\<forall>r \<in> set (ranges (conf s)). range_end r \<noteq> None) \<longrightarrow>
            (\<exists>s'. check_analysis s ev = Inr s'))"
proof -
  let ?rs = "ranges (conf s)"
  let ?s1 = "set_current_ts s i"
  from assms(4) have ne: "?rs \<noteq> []" by auto
  have unfold: "check_analysis s ev = check_started ?s1 (timestamp ev) ?rs i"
    using assms(2-4) ne
    by (simp add: check_analysis_def Let_def set_current_ts_frame)
  have acc: "accumulate (conf ?s1)" using assms(1) by (simp add: set_current_ts_frame)
  have silent: "effects s' = effects s \<and> period_start_ts s' = period_start_ts s \<and>
      (\<exists>i'. current_ts (conf s') = Some i' \<and> i < i')"
    if "check_analysis s ev = Inr s'" for s'
  proof -
    from that unfold have cs: "check_started ?s1 (timestamp ev) ?rs i = Inr s'" by simp
    from check_started_accumulate [OF acc cs] check_started_current_ts [OF assms(5,6) cs]
    show ?thesis by (simp add: set_current_ts_frame)
  qed
  have total: "\<exists>s'. check_analysis s ev = Inr s'"
    if ends: "\<forall>r \<in> set ?rs. range_end r \<noteq> None"
  proof -
    from advance_range_total [OF ends, of "Some (?rs ! i)" "timestamp ev" i] assms(5)
    obtain p where p: "advance_range ?rs (timestamp ev) i (Some (?rs ! i)) = Inr p" by auto
    obtain i' r' where ir: "p = (i', r')" by (cases p)
    have "close_window (set_current_ts ?s1 i') = Inr (set_current_ts ?s1 i')"
      using assms(1) by (simp add: close_window_def set_current_ts_frame)
    with p ir assms(5,6) unfold show ?thesis
      by (simp add: check_started_def)
  qed
  from silent total show ?thesis by blast
qed

text \<open>The amended statement at the event of time 35, which is past the end bound 20.\<close>

theorem accumulate_crossing_silent_witness:
  "map_sum id effects (check_analysis crossing_state (plain_event 35)) = Inr [Reset] \<and>
   map_sum id period_start_ts (check_analysis crossing_state (plain_event 35)) = Inr (Some 10)"
proof -
  have h: "accumulate (conf crossing_state)" "started crossing_state"
    "0 = (case current_ts (conf crossing_state) of None \<Rightarrow> 0 | Some j \<Rightarrow> j)"
    "0 < length (ranges (conf crossing_state))"
    "range_end (ranges (conf crossing_state) ! 0) = Some 20"
    "timestamp (plain_event 35) > 20"
    by (simp_all add: crossing_state_def engine_defs)
  have ends: "\<forall>r \<in> set (ranges (conf crossing_state)). range_end r \<noteq> None"
    by (simp add: crossing_state_def engine_defs)
  note silent = accumulate_crossing_silent [OF h]
  from silent ends obtain s' where s': "check_analysis crossing_state (plain_event 35) = Inr s'"
    by blast
  with silent have "effects s' = effects crossing_state"
    and "period_start_ts s' = period_start_ts crossing_state" by blast+
  moreover have "effects crossing_state = [Reset]"
    and "period_start_ts crossing_state = Some 10"
    by (simp_all add: crossing_state_def)
  ultimately show ?thesis using s' by simp
qed

text \<open>
  Claim C2 as stated fails: over the ranges [10,20] and [30,40] with \<^verbatim>\<open>accumulate\<close>
  set, the events at 10, 15 and 35 cross the boundary at 20 (the index is 1 afterwards),
  and the only effect of the whole run is the \<^verbatim>\<open>reset\<close> of the first window: no tick
  is sent.
\<close>

theorem accumulate_crossing_counterexample:
  "map_sum id effects
     (process_events (tick_engine (AnalysisConfig\<lparr>range_ts := Some two_ranges, accumulate := True\<rparr>))
        [plain_event 10, plain_event 15, plain_event 35]) = Inr [Reset] \<and>
   map_sum id (current_ts \<circ> conf)
     (process_events (tick_engine (AnalysisConfig\<lparr>range_ts := Some two_ranges, accumulate := True\<rparr>))
        [plain_event 10, plain_event 15, plain_event 35]) = Inr (Some 1)"
  by (simp add: engine_defs)

section \<open>Events after the range list is exhausted\<close>

text \<open>
  Claim C3 does not hold of the code. With the single range [10,20], the events at 10
  and 25 leave the engine ended, with \<^verbatim>\<open>current_ts\<close> equal to the length of the
  range list. The next event reaches \<^verbatim>\<open>range_ts[current_ts]\<close> in
  \<^verbatim>\<open>_check_analysis\<close>, which is called before \<^verbatim>\<open>ended\<close> is tested, and raises
  \<^verbatim>\<open>IndexError\<close>.
\<close>

theorem process_event_after_ended_raises:
  "map_sum id ended
     (process_events
        (tick_engine (AnalysisConfig\<lparr>range_ts := Some [\<lparr>range_begin = Some 10, range_end = Some 20\<rparr>]\<rparr>))
        [plain_event 10, plain_event 25]) = Inr True \<and>
   process_events
     (tick_engine (AnalysisConfig\<lparr>range_ts := Some [\<lparr>range_begin = Some 10, range_end = Some 20\<rparr>]\<rparr>))
     [plain_event 10, plain_event 25, plain_event 30] = Inl IndexError"
  by (simp add: engine_defs)

section \<open>The final tick\<close>

text \<open>
  Claim C4 does not hold of the code when the open window starts at time 0: \<^verbatim>\<open>end\<close>
  tests the truth of \<^verbatim>\<open>_period_start_ts\<close>, and 0 is false. After one event at time 0
  the period start is 0 and \<^verbatim>\<open>end\<close> fires nothing; after one event at time 5 it
  fires one \<^verbatim>\<open>_end_period\<close> and one tick.
\<close>

theorem end_with_start_zero_is_silent:
  "map_sum id period_start_ts (process_events (tick_engine AnalysisConfig) [plain_event 0])
     = Inr (Some 0) \<and>
   map_sum id (effects \<circ> end_analysis) (process_events (tick_engine AnalysisConfig) [plain_event 0])
     = Inr [] \<and>
   map_sum id (effects \<circ> end_analysis) (process_events (tick_engine AnalysisConfig) [plain_event 5])
     = Inr [EndPeriodCb, Notify 1 TICK_CB (Some 5) (Some 5)]"
  by (simp add: engine_defs)

section \<open>The order on time ranges\<close>

lemma time_range_lt_numeric:
  assumes "numeric a" "numeric b"
  shows "time_range_lt a b =
     Inr (the (range_begin a) < the (range_begin b) \<or>
          (range_begin a = range_begin b \<and> the (range_end a) < the (range_end b)))"
  using assms by (auto simp: numeric_def time_range_lt_def py_lt_def)

lemma time_range_derived_numeric:
  assumes "numeric a" "numeric b"
  shows "time_range_le a b = Inr (time_range_lt a b = Inr True \<or> time_range_eq a b)"
    and "time_range_gt a b = time_range_lt b a"
    and "time_range_ge a b = time_range_le b a"
  using assms
  by (auto simp: numeric_def time_range_lt_def time_range_le_def time_range_gt_def
        time_range_ge_def time_range_eq_def py_lt_def)

lemma time_range_lt_total:
  assumes "numeric a" "numeric b"
  shows "time_range_lt a b = Inr True \<or> time_range_eq a b \<or> time_range_lt b a = Inr True"
    and "time_range_lt a b = Inr True \<Longrightarrow> time_range_lt b a = Inr False \<and> \<not> time_range_eq a b"
  using assms
  by (auto simp: numeric_def time_range_lt_def time_range_eq_def py_lt_def)

lemma time_range_lt_trans:
  assumes "numeric a" "numeric b" "numeric c"
    and "time_range_lt a b = Inr True" "time_range_lt b c = Inr True"
  shows "time_range_lt a c = Inr True"
  using assms
  by (auto simp: numeric_def time_range_lt_def py_lt_def split: if_splits)

lemma time_range_lt_raises:
  "range_begin a \<noteq> range_begin b \<Longrightarrow> range_begin a = None \<or> range_begin b = None \<Longrightarrow>
     time_range_lt a b = Inl TypeError"
  "range_begin a = range_begin b \<Longrightarrow> range_end a \<noteq> range_end b \<Longrightarrow>
   range_end a = None \<or> range_end b = None \<Longrightarrow> time_range_lt a b = Inl TypeError"
  by (auto simp: time_range_lt_def py_lt_def split: option.splits)

lemma time_range_derived_raise:
  "time_range_lt a b = Inl e \<Longrightarrow>
     time_range_le a b = Inl e \<and> time_range_gt a b = Inl e \<and> time_range_ge a b = Inl e"
  by (simp add: time_range_le_def time_range_gt_def time_range_ge_def)

text \<open>
  Claim C5, as amended. On ranges with integer bounds the operators are the
  lexicographic order of \<^verbatim>\<open>(begin, end)\<close>: \<^verbatim>\<open><\<close> is the strict lexicographic
  comparison, the derived operators agree with it, and the order is total, asymmetric
  and transitive. \<^verbatim>\<open>==\<close> always yields a result. When the first pair of bounds that
  differ has \<^verbatim>\<open>None\<close> on one side, all four ordering operators raise
  \<^verbatim>\<open>TypeError\<close>: \<^verbatim>\<open>None\<close> is not ordered below the integers.
\<close>

theorem time_range_order_amended:
  "(numeric a \<and> numeric b \<longrightarrow>
      time_range_lt a b =
        Inr (the (range_begin a) < the (range_begin b) \<or>
             (range_begin a = range_begin b \<and> the (range_end a) < the (range_end b))) \<and>
      time_range_le a b = Inr (time_range_lt a b = Inr True \<or> time_range_eq a b) \<and>
      time_range_gt a b = time_range_lt b a \<and>
      time_range_ge a b = time_range_le b a \<and>
      (time_range_lt a b = Inr True \<or> time_range_eq a b \<or> time_range_lt b a = Inr True) \<and>
      (time_range_lt a b = Inr True \<longrightarrow> time_range_lt b a = Inr False \<and> \<not> time_range_eq a b) \<and>
      (numeric c \<and> time_range_lt a b = Inr True \<and> time_range_lt b c = Inr True \<longrightarrow>
         time_range_lt a c = Inr True)) \<and>
   (time_range_eq a b \<longleftrightarrow> range_begin a = range_begin b \<and> range_end a = range_end b) \<and>
   (range_begin a \<noteq> range_begin b \<and> (range_begin a = None \<or> range_begin b = None) \<longrightarrow>
      time_range_lt a b = Inl TypeError \<and> time_range_le a b = Inl TypeError \<and>
      time_range_gt a b = Inl TypeError \<and> time_range_ge a b = Inl TypeError) \<and>
   (range_begin a = range_begin b \<and> range_end a \<noteq> range_end b \<and>
    (range_end a = None \<or> range_end b = None) \<longrightarrow>
      time_range_lt a b = Inl TypeError \<and> time_range_le a b = Inl TypeError \<and>
      time_range_gt a b = Inl TypeError \<and> time_range_ge a b = Inl TypeError)"
  (is "?numeric \<and> ?equal \<and> ?raise_begin \<and> ?raise_end")
proof (intro conjI)
  show ?numeric
  proof (intro impI conjI)
    assume n: "numeric a \<and> numeric b"
    then have na: "numeric a" and nb: "numeric b" by simp_all
    show "time_range_lt a b =
        Inr (the (range_begin a) < the (range_begin b) \<or>
             (range_begin a = range_begin b \<and> the (range_end a) < the (range_end b)))"
      by (rule time_range_lt_numeric [OF na nb])
    show "time_range_le a b = Inr (time_range_lt a b = Inr True \<or> time_range_eq a b)"
      by (rule time_range_derived_numeric(1) [OF na nb])
    show "time_range_gt a b = time_range_lt b a"
      by (rule time_range_derived_numeric(2) [OF na nb])
    show "time_range_ge a b = time_range_le b a"
      by (rule time_range_derived_numeric(3) [OF na nb])
    show "time_range_lt a b = Inr True \<or> time_range_eq a b \<or> time_range_lt b a = Inr True"
      by (rule time_range_lt_total(1) [OF na nb])
    {
      assume "time_range_lt a b = Inr True"
      from time_range_lt_total(2) [OF na nb this]
      show "time_range_lt b a = Inr False" and "\<not> time_range_eq a b" by simp_all
    }
    assume "numeric c \<and> time_range_lt a b = Inr True \<and> time_range_lt b c = Inr True"
    then show "time_range_lt a c = Inr True"
      using time_range_lt_trans [OF na nb] by simp
  qed
  show ?equal
    by (simp add: time_range_eq_def)
  show ?raise_begin
  proof
    assume "range_begin a \<noteq> range_begin b \<and> (range_begin a = None \<or> range_begin b = None)"
    then have "time_range_lt a b = Inl TypeError"
      using time_range_lt_raises(1) [of a b] by simp
    then show "time_range_lt a b = Inl TypeError \<and> time_range_le a b = Inl TypeError \<and>
      time_range_gt a b = Inl TypeError \<and> time_range_ge a b = Inl TypeError"
      using time_range_derived_raise [of a b TypeError] by simp
  qed
  show ?raise_end
  proof
    assume "range_begin a = range_begin b \<and> range_end a \<noteq> range_end b \<and>
      (range_end a = None \<or> range_end b = None)"
    then have "time_range_lt a b = Inl TypeError"
      using time_range_lt_raises(2) [of a b] by simp
    then show "time_range_lt a b = Inl TypeError \<and> time_range_le a b = Inl TypeError \<and>
      time_range_gt a b = Inl TypeError \<and> time_range_ge a b = Inl TypeError"
      using time_range_derived_raise [of a b TypeError] by simp
  qed
qed

theorem time_range_order_amended_witness:
  "time_range_lt \<lparr>range_begin = Some 1, range_end = Some 9\<rparr>
                 \<lparr>range_begin = Some 1, range_end = Some 12\<rparr> = Inr True \<and>
   time_range_gt \<lparr>range_begin = Some 1, range_end = None\<rparr>
                 \<lparr>range_begin = Some 1, range_end = Some 12\<rparr> = Inl TypeError"
proof -
  have n: "numeric \<lparr>range_begin = Some 1, range_end = Some 9\<rparr>"
      "numeric \<lparr>range_begin = Some 1, range_end = Some 12\<rparr>"
    by (simp_all add: numeric_def)
  have "time_range_lt \<lparr>range_begin = Some 1, range_end = Some 9\<rparr>
                 \<lparr>range_begin = Some 1, range_end = Some 12\<rparr> = Inr True"
    using time_range_order_amended
      [of "\<lparr>range_begin = Some 1, range_end = Some 9\<rparr>"
          "\<lparr>range_begin = Some 1, range_end = Some 12\<rparr>"
          "\<lparr>range_begin = Some 1, range_end = Some 12\<rparr>"] n
    by simp
  moreover have "time_range_gt \<lparr>range_begin = Some 1, range_end = None\<rparr>
                 \<lparr>range_begin = Some 1, range_end = Some 12\<rparr> = Inl TypeError"
    using time_range_order_amended
      [of "\<lparr>range_begin = Some 1, range_end = None\<rparr>"
          "\<lparr>range_begin = Some 1, range_end = Some 12\<rparr>"
          "\<lparr>range_begin = Some 1, range_end = Some 12\<rparr>"]
    by simp
  ultimately show ?thesis by simp
qed

text \<open>
  Claim C5 as stated fails: a range without a begin bound compared with one that has a
  begin bound raises instead of sorting first.
\<close>

theorem time_range_none_counterexample:
  "time_range_lt \<lparr>range_begin = None, range_end = Some 5\<rparr>
                 \<lparr>range_begin = Some 3, range_end = Some 5\<rparr> = Inl TypeError"
  by (simp add: time_range_lt_def py_lt_def)

section \<open>Keyed periods\<close>

text \<open>
  Claim C6 does not hold of the engine. With begin and end events keyed on \<^verbatim>\<open>id\<close>
  and no range list, the begin-event with key \<^verbatim>\<open>("A",)\<close> at time 3 opens a period
  that starts at 3. The end-event with key \<^verbatim>\<open>("B",)\<close> at time 7 does not close it, as
  the claim says (the key comparison of \<^verbatim>\<open>_handle_period_event\<close> is the lemma
  \<open>handle_period_event_end_match\<close>), but the period is not left unchanged: the first
  statements of \<^verbatim>\<open>process_event\<close> move its start to 7, \<^verbatim>\<open>current_ts\<close> being
  \<^verbatim>\<open>None\<close> without a range list. The end-event with key \<^verbatim>\<open>("A",)\<close> at time 8 then
  closes a window reported as starting at 8.
\<close>

theorem mismatched_end_event_moves_start:
  "map_sum id period_start_ts
     (process_events (tick_engine keyed_conf) [keyed_event ''req_begin'' 3 ''A'']) =
     Inr (Some 3) \<and>
   map_sum id period_key
     (process_events (tick_engine keyed_conf)
        [keyed_event ''req_begin'' 3 ''A'', keyed_event ''req_end'' 7 ''B'']) =
     Inr (Some [PStr ''A'']) \<and>
   map_sum id period_start_ts
     (process_events (tick_engine keyed_conf)
        [keyed_event ''req_begin'' 3 ''A'', keyed_event ''req_end'' 7 ''B'']) =
     Inr (Some 7) \<and>
   map_sum id effects
     (process_events (tick_engine keyed_conf)
        [keyed_event ''req_begin'' 3 ''A'', keyed_event ''req_end'' 7 ''B'',
         keyed_event ''req_end'' 8 ''A'']) =
     Inr [Reset, EndPeriodCb, Notify 1 TICK_CB (Some 8) (Some 8)]"
  by (simp add: engine_defs)




section \<open>Refresh intervals\<close>

text \<open>
  Claim C8 does not hold of the code. Without a range list \<^verbatim>\<open>current_ts\<close> stays
  \<^verbatim>\<open>None\<close>, so \<^verbatim>\<open>process_event\<close> stamps the period start with the timestamp of
  every event before \<^verbatim>\<open>_check_refresh\<close> runs: with a refresh period of 100 the
  events at 0, 50, 150 and 260 fire no tick at all. And \<^verbatim>\<open>_check_refresh\<close> itself
  tests the truth of the period start: from a window that starts at 0, the event at 150
  moves the start to 150 without closing the window.
\<close>

theorem refresh_never_closes:
  "map_sum id effects
     (process_events (tick_engine (AnalysisConfig\<lparr>refresh_period := Some 100\<rparr>))
        [plain_event 0, plain_event 50, plain_event 150, plain_event 260]) = Inr [] \<and>
   map_sum id period_start_ts
     (process_events (tick_engine (AnalysisConfig\<lparr>refresh_period := Some 100\<rparr>))
        [plain_event 0, plain_event 50, plain_event 150, plain_event 260]) = Inr (Some 260) \<and>
   check_refresh
     ((tick_engine (AnalysisConfig\<lparr>refresh_period := Some 100\<rparr>))\<lparr>period_start_ts := Some 0\<rparr>)
     (plain_event 150) =
   Inr ((tick_engine (AnalysisConfig\<lparr>refresh_period := Some 100\<rparr>))\<lparr>period_start_ts := Some 150\<rparr>)"
  by (simp add: engine_defs)

section \<open>Missing key fields\<close>

text \<open>
  Claim C9 does not hold of the engine. With begin and end events keyed on \<^verbatim>\<open>id\<close>
  and no range list, a period with key \<^verbatim>\<open>("A",)\<close> is open since time 3. An end-event
  at time 7 that has no field \<^verbatim>\<open>id\<close> raises nothing, closes nothing and fires nothing,
  as the claim says (\<^verbatim>\<open>_handle_period_event\<close> returns the engine unchanged, the lemma
  \<open>missing_key_field_handle\<close>), but the period start is not unchanged: the first
  statements of \<^verbatim>\<open>process_event\<close> move it to 7.
\<close>

theorem missing_field_event_moves_start:
  "map_sum id period_start_ts
     (process_events (tick_engine keyed_conf) [keyed_event ''req_begin'' 3 ''A'']) =
     Inr (Some 3) \<and>
   map_sum id period_key
     (process_events (tick_engine keyed_conf)
        [keyed_event ''req_begin'' 3 ''A'',
         \<lparr>name = ''req_end'', timestamp = 7, ev_fields = [''cpu'' \<mapsto> PInt 2]\<rparr>]) =
     Inr (Some [PStr ''A'']) \<and>
   map_sum id period_start_ts
     (process_events (tick_engine keyed_conf)
        [keyed_event ''req_begin'' 3 ''A'',
         \<lparr>name = ''req_end'', timestamp = 7, ev_fields = [''cpu'' \<mapsto> PInt 2]\<rparr>]) =
     Inr (Some 7) \<and>
   map_sum id effects
     (process_events (tick_engine keyed_conf)
        [keyed_event ''req_begin'' 3 ''A'',
         \<lparr>name = ''req_end'', timestamp = 7, ev_fields = [''cpu'' \<mapsto> PInt 2]\<rparr>]) =
     Inr [Reset]"
  by (simp add: engine_defs)

section \<open>Keyed periods without key fields\<close>

text \<open>
  Claim C10, as amended. If \<^verbatim>\<open>period_begin_ev_name\<close> is configured and
  \<^verbatim>\<open>period_begin_key_fields\<close> is unset or empty, then from an engine with no open
  keyed period: key extraction yields no key, \<^verbatim>\<open>_handle_period_event\<close> returns the
  engine unchanged on every event, so the keyed-period machinery fires no tick and
  leaves the period start as it found it, and \<^verbatim>\<open>process_event\<close> does exactly what the
  timestamp bookkeeping and range gating do (\<^verbatim>\<open>_check_refresh\<close> is never reached).
  Over every event stream the period key stays \<^verbatim>\<open>None\<close> and the configuration keeps
  these settings. The period start is not said to stay \<^verbatim>\<open>None\<close>.
\<close>

theorem keyed_without_key_fields_amended:
  assumes "period_begin_ev_name (conf s) \<noteq> None"
    and "period_begin_key_fields (conf s) = None \<or> period_begin_key_fields (conf s) = Some []"
    and "period_key s = None"
  shows "get_period_event_key ev (period_begin_key_fields (conf s)) = None \<and>
         handle_period_event s ev = Inr s \<and>
         process_event s ev = check_analysis (stamp_event s ev) ev \<and>
         (\<forall>s'. process_events s evs = Inr s' \<longrightarrow>
            period_key s' = None \<and>
            period_begin_ev_name (conf s') = period_begin_ev_name (conf s) \<and>
            period_begin_key_fields (conf s') = period_begin_key_fields (conf s))"
  using get_period_event_key_unset [OF assms(2), of ev]
    handle_period_event_no_key_fields [OF assms(2,3), of ev]
    process_event_no_key_fields [OF assms, of ev]
    process_events_no_key_fields [OF assms, of evs]
  by simp

text \<open>Two begin-events under a configuration with no key fields.\<close>

theorem keyed_without_key_fields_amended_witness:
  "get_period_event_key (keyed_event ''req_begin'' 5 ''A'')
     (period_begin_key_fields (conf unkeyed_engine)) = None \<and>
   handle_period_event unkeyed_engine (keyed_event ''req_begin'' 5 ''A'') = Inr unkeyed_engine \<and>
   map_sum id period_key
     (process_events unkeyed_engine
        [keyed_event ''req_begin'' 5 ''A'', keyed_event ''req_begin'' 9 ''A'']) = Inr None"
proof -
  have h: "period_begin_ev_name (conf unkeyed_engine) \<noteq> None"
    "period_begin_key_fields (conf unkeyed_engine) = None \<or>
     period_begin_key_fields (conf unkeyed_engine) = Some []"
    "period_key unkeyed_engine = None"
    by (simp_all add: unkeyed_engine_def engine_defs)
  note ignored = keyed_without_key_fields_amended [OF h,
      of "keyed_event ''req_begin'' 5 ''A''"
         "[keyed_event ''req_begin'' 5 ''A'', keyed_event ''req_begin'' 9 ''A'']"]
  obtain s' where run: "process_events unkeyed_engine
      [keyed_event ''req_begin'' 5 ''A'', keyed_event ''req_begin'' 9 ''A''] = Inr s'"
    by (cases "process_events unkeyed_engine
          [keyed_event ''req_begin'' 5 ''A'', keyed_event ''req_begin'' 9 ''A'']")
       (simp_all add: unkeyed_engine_def engine_defs)
  with ignored have "period_key s' = None" by blast
  with run ignored show ?thesis by simp
qed

text \<open>
  Claim C10 as stated fails: the period start does not stay \<^verbatim>\<open>None\<close>. The first event
  opens the implicit window at its timestamp when there is no range list, and the
  range gating opens one when the event reaches the begin bound of the first range.
\<close>

theorem keyed_without_key_fields_counterexample:
  "map_sum id period_start_ts
     (process_event (tick_engine (AnalysisConfig\<lparr>period_begin_ev_name := Some ''req_begin''\<rparr>))
        (keyed_event ''req_begin'' 5 ''A'')) = Inr (Some 5) \<and>
   map_sum id period_start_ts
     (process_event
        (tick_engine (AnalysisConfig\<lparr>period_begin_ev_name := Some ''req_begin'',
                                      range_ts := Some two_ranges\<rparr>))
        (keyed_event ''req_begin'' 10 ''A'')) = Inr (Some 10)"
  by (simp add: engine_defs)

end
